theory Spec2Isabelle
  imports Complex_Main
begin

section \<open>Data model\<close>

text \<open>
  A \<open>Decimal\<close> is modelled by its numerical value, a rational number. The operations of
  the \<open>decimal\<close> module depend on the values of their operands only; what they do to a
  value under the default context is written out in the section on decimal arithmetic.
  No binary floating point occurs in the pricing code.
\<close>

type_synonym decimal = rat

text \<open>
  A \<open>datetime.date\<close> is the triple year, month, day, compared lexicographically.
\<close>

datatype date = Date (year: nat) (month: nat) (day: nat)

fun date_less :: "date \<Rightarrow> date \<Rightarrow> bool" where
  "date_less (Date y1 m1 d1) (Date y2 m2 d2) =
     (y1 < y2 \<or> (y1 = y2 \<and> (m1 < m2 \<or> (m1 = m2 \<and> d1 < d2))))"

text \<open>
  \<open>products/models.py\<close>. A saved model instance carries its primary key; the character
  fields (\<open>title\<close>, \<open>url_title\<close>) are read by none of the pricing code and are left out.
\<close>

datatype ProductCategory =
  ProductCategory (category_pk: nat) (parent: "ProductCategory option")

record Product =
  product_pk :: nat
  price :: decimal
  category :: ProductCategory

text \<open>
  \<open>orders/models.py\<close>. The two scope fields of a discount code are named
  \<open>dc_category\<close> and \<open>dc_product\<close> here (the source calls them \<open>category\<close> and
  \<open>product\<close>), the product of an order line \<open>od_product\<close>.
\<close>

record DiscountCode =
  code :: string
  off_per :: "int option"
  off_price :: "decimal option"
  min_purchase :: "decimal option"
  is_active :: bool
  is_delete :: bool
  is_first :: bool
  exp_date :: "date option"
  quantity :: "int option"
  dc_category :: "ProductCategory option"
  dc_product :: "Product option"

text \<open>
  Of a user the pricing code reads only \<open>order_set.filter(is_payment=True)\<close>; the user is
  modelled by the \<open>is_payment\<close> flags of the orders in \<open>user.order_set\<close>.
\<close>

record User =
  order_set :: "bool list"

record Order =
  user :: User
  is_payment :: bool
  discount_code :: "DiscountCode option"

record OrderDetail =
  od_product :: Product
  final_price :: "decimal option"
  count :: int

text \<open>
  The exceptions the pricing code lets escape: the \<open>TypeError\<close> of an arithmetic operation
  or of \<open>round\<close> on \<open>None\<close>, and the \<open>decimal.InvalidOperation\<close> of \<open>round\<close> on a
  \<open>Decimal\<close> whose two-place value does not fit the context precision.
\<close>

datatype error = TypeError | InvalidOperation

section \<open>Decimal arithmetic\<close>

text \<open>
  Rounding to the nearest integer, ties to the even neighbour (\<open>ROUND_HALF_EVEN\<close>, the
  rounding mode of the default context).
\<close>

definition round_half_even :: "decimal \<Rightarrow> int" where
  "round_half_even y =
     (let n = \<lfloor>y\<rfloor>; r = y - of_int n
      in if r < 1 / 2 then n
         else if 1 / 2 < r then n + 1
         else if even n then n else n + 1)"

text \<open>
  The number of decimal digits of a natural number, and the adjusted exponent of a
  non-zero value \<open>x\<close>: the \<open>e\<close> with \<open>10^e \<le> |x| < 10^(e+1)\<close>, the exponent of its
  leading digit.
\<close>

fun digits :: "nat \<Rightarrow> nat" where
  "digits n = (if n < 10 then 1 else Suc (digits (n div 10)))"

declare digits.simps [simp del]

definition adjusted :: "decimal \<Rightarrow> int" where
  "adjusted x =
     (if 1 \<le> \<bar>x\<bar> then int (digits (nat \<lfloor>\<bar>x\<bar>\<rfloor>)) - 1
      else - int (digits (nat (\<lceil>1 / \<bar>x\<bar>\<rceil> - 1))))"

text \<open>
  The default context has a precision of 28 significant digits. An arithmetic operation
  computes the exact result and rounds it to the context: the result keeps the 28 digits
  from the leading one on, the rest is rounded off half-even. A result of at most 28
  significant digits is exact. The exponent limits of the context (\<open>Emax = 999999\<close>) are
  out of reach of sums and products of database fields and are not modelled.
\<close>

definition round_to_prec :: "decimal \<Rightarrow> decimal" where
  "round_to_prec x =
     (if x = 0 then 0
      else
        let e = adjusted x
        in if 27 \<le> e then of_int (round_half_even (x / 10 ^ nat (e - 27))) * 10 ^ nat (e - 27)
           else of_int (round_half_even (x * 10 ^ nat (27 - e))) / 10 ^ nat (27 - e))"

definition dec_add :: "decimal \<Rightarrow> decimal \<Rightarrow> decimal" where
  "dec_add a b = round_to_prec (a + b)"

definition dec_sub :: "decimal \<Rightarrow> decimal \<Rightarrow> decimal" where
  "dec_sub a b = round_to_prec (a - b)"

definition dec_mul :: "decimal \<Rightarrow> decimal \<Rightarrow> decimal" where
  "dec_mul a b = round_to_prec (a * b)"

definition dec_div :: "decimal \<Rightarrow> decimal \<Rightarrow> decimal" where
  "dec_div a b = round_to_prec (a / b)"

text \<open>
  \<open>round(d, 2)\<close> on a \<open>Decimal\<close> quantizes to two places with \<open>ROUND_HALF_EVEN\<close>. It raises
  \<open>InvalidOperation\<close> when the coefficient of the two-place result has more than 28 digits.
  \<open>round(None, 2)\<close> raises \<open>TypeError\<close>.
\<close>

definition round2 :: "decimal \<Rightarrow> decimal" where
  "round2 x = of_int (round_half_even (x * 100)) / 100"

fun py_round2 :: "decimal option \<Rightarrow> error + decimal" where
  "py_round2 None = Inl TypeError"
| "py_round2 (Some x) =
     (if 10 ^ 28 \<le> \<bar>round_half_even (x * 100)\<bar> then Inl InvalidOperation
      else Inr (round2 x))"

section \<open>Discount calculation\<close>

text \<open>
  \<open>calculate_discount_price\<close>: both arguments convert to \<open>Decimal\<close> (the callers pass a
  \<open>Decimal\<close> and an integer). A non-positive argument raises \<open>ValueError\<close> inside the
  \<open>try\<close>; the handler prints the message and the function falls off its end, returning
  \<open>None\<close>. The printed line is not part of the model.
\<close>

definition calculate_discount_price :: "decimal \<Rightarrow> int \<Rightarrow> decimal option" where
  "calculate_discount_price original_price discount_percentage =
     (if original_price \<le> 0 \<or> (of_int discount_percentage :: decimal) \<le> 0 then None
      else
        let discount_amount = dec_mul original_price (dec_div (of_int discount_percentage) 100);
            discounted_price = dec_sub original_price discount_amount
        in Some discounted_price)"

text \<open>
  \<open>compute_discount_amount\<close> returns a \<open>Decimal\<close> or \<open>None\<close>, or raises \<open>TypeError\<close> when
  it subtracts \<open>None\<close> from the total in the combined branch. The parameter \<open>total\<close>
  of the source is \<open>amount\<close> here, its parameter \<open>discount_code\<close> is \<open>dc\<close>.
\<close>

definition compute_discount_amount :: "DiscountCode \<Rightarrow> decimal \<Rightarrow> error + decimal option" where
  "compute_discount_amount dc amount =
     (if (case min_purchase dc of None \<Rightarrow> True | Some m \<Rightarrow> m \<le> amount) then
        (case (off_price dc, off_per dc) of
           (Some f, None) \<Rightarrow> Inr (Some (dec_sub amount f))
         | (None, Some p) \<Rightarrow> Inr (calculate_discount_price amount p)
         | (Some f, Some p) \<Rightarrow>
             (case calculate_discount_price amount p of
                None \<Rightarrow> Inl TypeError
              | Some r \<Rightarrow>
                  let decreased_amount = dec_sub amount r
                  in if decreased_amount > f then Inr (Some (dec_sub amount f))
                     else Inr (calculate_discount_price amount p))
         | (None, None) \<Rightarrow> Inr (Some amount))
      else Inr (Some amount))"

section \<open>Validity of a discount code\<close>

text \<open>
  \<open>DiscountCode.is_valid\<close>, with \<open>timezone.now().date()\<close> passed in as \<open>today\<close>. A date
  object is always truthy, so \<open>self.exp_date and ...\<close> tests for \<open>None\<close> only.
\<close>

definition is_valid :: "date \<Rightarrow> DiscountCode \<Rightarrow> bool" where
  "is_valid today self =
     (if \<not> is_active self \<or> is_delete self then False
      else if (case quantity self of None \<Rightarrow> False | Some q \<Rightarrow> q \<le> 0) then False
      else if off_price self = None \<and> off_per self = None then False
      else if (case exp_date self of None \<Rightarrow> False | Some e \<Rightarrow> date_less e today) then False
      else True)"

section \<open>Scope of a discount code\<close>

text \<open>
  Django compares two saved model instances of one class by primary key; \<open>None\<close> equals
  only \<open>None\<close>. Membership in a set literal is equality with one of its elements.
\<close>

fun category_eq :: "ProductCategory option \<Rightarrow> ProductCategory option \<Rightarrow> bool" where
  "category_eq None None = True"
| "category_eq (Some a) (Some b) = (category_pk a = category_pk b)"
| "category_eq _ _ = False"

fun product_eq :: "Product option \<Rightarrow> Product option \<Rightarrow> bool" where
  "product_eq None None = True"
| "product_eq (Some a) (Some b) = (product_pk a = product_pk b)"
| "product_eq _ _ = False"

definition is_category_match :: "DiscountCode \<Rightarrow> Product \<Rightarrow> bool" where
  "is_category_match dc product =
     (let is_category_matched = category_eq (dc_category dc) (Some (category product));
          is_product_available = (dc_product dc = None)
      in is_category_matched \<and> is_product_available)"

definition is_product_match :: "DiscountCode \<Rightarrow> Product \<Rightarrow> bool" where
  "is_product_match dc product =
     (let product_matched = product_eq (dc_product dc) (Some product);
          is_category_available = (dc_category dc = None)
      in product_matched \<and> is_category_available)"

definition is_category_and_product_match :: "DiscountCode \<Rightarrow> Product \<Rightarrow> bool" where
  "is_category_and_product_match dc product =
     (let is_category_matched =
            (category_eq (dc_category dc) (Some (category product)) \<or>
             category_eq (dc_category dc) (parent (category product)));
          is_product_matched = product_eq (dc_product dc) (Some product)
      in is_category_matched \<and> is_product_matched)"

definition is_discount_applicable :: "DiscountCode \<Rightarrow> Product \<Rightarrow> bool" where
  "is_discount_applicable dc product =
     (is_category_match dc product \<or>
      is_product_match dc product \<or>
      is_category_and_product_match dc product)"

section \<open>Line and order totals\<close>

text \<open>
  \<open>self.order.user.order_set.filter(is_payment=True)\<close> is truthy, and its \<open>.exists()\<close> is
  true, when the user has an order whose \<open>is_payment\<close> is true.
\<close>

definition paid_orders :: "User \<Rightarrow> bool list" where
  "paid_orders u = filter (\<lambda>is_payment. is_payment = True) (order_set u)"

text \<open>
  \<open>OrderDetail.get_total_price_detail\<close>; \<open>order\<close> is \<open>self.order\<close>.
\<close>

definition get_total_price_detail :: "date \<Rightarrow> Order \<Rightarrow> OrderDetail \<Rightarrow> error + decimal" where
  "get_total_price_detail today order self =
     (let base_price = dec_mul (of_int (count self)) (price (od_product self))
      in case discount_code order of
           None \<Rightarrow> py_round2 (Some base_price)
         | Some dc \<Rightarrow>
             if \<not> is_valid today dc then py_round2 (Some base_price)
             else if is_first dc \<and> paid_orders (user order) \<noteq> [] then py_round2 (Some base_price)
             else if is_discount_applicable dc (od_product self) then
               (case compute_discount_amount dc base_price of
                  Inl e \<Rightarrow> Inl e
                | Inr v \<Rightarrow> py_round2 v)
             else py_round2 (Some base_price))"

text \<open>
  The loop of \<open>Order.get_total_price_order\<close> over \<open>self.orderdetail_set.all()\<close>, with the
  running \<open>total_amount\<close>; an exception of a line total leaves the loop.
\<close>

fun accumulate_details :: "date \<Rightarrow> Order \<Rightarrow> decimal \<Rightarrow> OrderDetail list \<Rightarrow> error + decimal" where
  "accumulate_details today self total_amount [] = Inr total_amount"
| "accumulate_details today self total_amount (order_detail # rest) =
     (case get_total_price_detail today self order_detail of
        Inl e \<Rightarrow> Inl e
      | Inr t \<Rightarrow> accumulate_details today self (dec_add total_amount t) rest)"

text \<open>
  \<open>Order.get_total_price_order\<close>; \<open>orderdetail_set\<close> is \<open>self.orderdetail_set.all()\<close>, the
  lines whose \<open>order\<close> is \<open>self\<close>.
\<close>

definition get_total_price_order :: "date \<Rightarrow> Order \<Rightarrow> OrderDetail list \<Rightarrow> error + decimal" where
  "get_total_price_order today self orderdetail_set =
     (case accumulate_details today self 0 orderdetail_set of
        Inl e \<Rightarrow> Inl e
      | Inr total_amount \<Rightarrow>
          (case (case discount_code self of
                   None \<Rightarrow> Inr (Some total_amount)
                 | Some dc \<Rightarrow>
                     if is_valid today dc then
                       if dc_category dc = None \<and> dc_product dc = None then
                         if (is_first dc \<and> \<not> (paid_orders (user self) \<noteq> [])) \<or> \<not> is_first dc
                         then compute_discount_amount dc total_amount
                         else Inr (Some total_amount)
                       else Inr (Some total_amount)
                     else Inr (Some total_amount)) of
             Inl e \<Rightarrow> Inl e
           | Inr v \<Rightarrow> py_round2 v))"

section \<open>Amounts and the order-level condition\<close>

text \<open>
  A value with at most two decimal places, as a \<open>DecimalField\<close> with \<open>decimal_places = 2\<close>
  holds it and as \<open>round(d, 2)\<close> returns it.
\<close>

definition two_places :: "decimal \<Rightarrow> bool" where
  "two_places x = (of_int \<lfloor>x * 100\<rfloor> = x * 100)"

text \<open>
  The condition under which the specification applies the code to the summed total: the
  code exists, is valid, has no category and no product restriction, and is not
  first-only or the user has no prior paid order.
\<close>

definition order_level_discount :: "date \<Rightarrow> Order \<Rightarrow> DiscountCode option" where
  "order_level_discount today self =
     (case discount_code self of
        None \<Rightarrow> None
      | Some dc \<Rightarrow>
          if is_valid today dc \<and> dc_category dc = None \<and> dc_product dc = None
             \<and> (is_first dc \<longrightarrow> paid_orders (user self) = [])
          then Some dc else None)"

section \<open>Digits and the adjusted exponent\<close>

lemma floor_rat_numeral_div: "\<lfloor>numeral a / numeral b :: rat\<rfloor> = numeral a div numeral b"
  using floor_divide_of_int_eq [of "numeral a" "numeral b", where ?'a = rat] by simp

lemma floor_rat_neg_numeral_div:
  "\<lfloor>- (numeral a / numeral b) :: rat\<rfloor> = - numeral a div numeral b"
  using floor_divide_of_int_eq [of "- numeral a" "numeral b", where ?'a = rat] by simp

lemma digits_pos: "0 < digits n"
  by (simp add: digits.simps [of n])

lemma digits_bounds: "0 < n \<Longrightarrow> 10 ^ (digits n - 1) \<le> n \<and> n < 10 ^ digits n"
proof (induction n rule: digits.induct)
  case (1 n)
  show ?case
  proof (cases "n < 10")
    case True
    with "1.prems" show ?thesis by (simp add: digits.simps [of n])
  next
    case False
    then have pos: "0 < n div 10" by simp
    from "1.IH" [OF False pos]
    have lo: "10 ^ (digits (n div 10) - 1) \<le> n div 10" and hi: "n div 10 < 10 ^ digits (n div 10)"
      by simp_all
    have d: "digits n = Suc (digits (n div 10))"
      using False by (simp add: digits.simps [of n])
    have "10 * 10 ^ (digits (n div 10) - 1) \<le> 10 * (n div 10)"
      using lo by simp
    also have "\<dots> \<le> n" by simp
    finally have "10 * 10 ^ (digits (n div 10) - 1) \<le> n" .
    moreover have "10 * 10 ^ (digits (n div 10) - 1) = (10::nat) ^ digits (n div 10)"
      using digits_pos [of "n div 10"] by (cases "digits (n div 10)") simp_all
    ultimately have lo': "10 ^ (digits n - 1) \<le> n"
      using d by simp
    have "n < 10 * (n div 10) + 10" by presburger
    also have "\<dots> \<le> 10 * 10 ^ digits (n div 10)"
      using hi by simp
    finally have "n < 10 ^ digits n" using d by simp
    with lo' show ?thesis by simp
  qed
qed

lemma adjusted_lower:
  assumes "x \<noteq> 0"
  shows "10 powi adjusted x \<le> \<bar>x\<bar>"
proof (cases "1 \<le> \<bar>x\<bar>")
  case True
  define m where "m = nat \<lfloor>\<bar>x\<bar>\<rfloor>"
  have m: "0 < m" "of_nat m \<le> \<bar>x\<bar>"
    using True by (simp_all add: m_def le_floor_iff)
  have "adjusted x = int (digits m - 1)"
    using True digits_pos [of m] by (simp add: adjusted_def m_def)
  then have "10 powi adjusted x = (10::rat) ^ (digits m - 1)" by simp
  also have "\<dots> = of_nat (10 ^ (digits m - 1))" by simp
  also have "\<dots> \<le> of_nat m"
    using digits_bounds [OF m(1)] by (simp only: of_nat_le_iff)
  finally show ?thesis using m(2) by simp
next
  case False
  define y where "y = 1 / \<bar>x\<bar>"
  have y: "1 < y" using False assms by (simp add: y_def)
  define m where "m = nat (\<lceil>y\<rceil> - 1)"
  have "2 \<le> \<lceil>y\<rceil>" using y by (simp add: le_ceiling_iff)
  then have m: "0 < m" "int m = \<lceil>y\<rceil> - 1" by (simp_all add: m_def)
  have "y \<le> of_int \<lceil>y\<rceil>" by (rule le_of_int_ceiling)
  also have "\<dots> = of_nat (m + 1)" using m(2) by simp
  also have "\<dots> \<le> of_nat (10 ^ digits m)"
    using digits_bounds [OF m(1)] by (simp only: of_nat_le_iff) simp
  finally have "y \<le> 10 ^ digits m" by simp
  then have "1 / 10 ^ digits m \<le> \<bar>x\<bar>"
    using assms by (simp add: y_def field_simps)
  moreover have "adjusted x = - int (digits m)"
    using False by (simp add: adjusted_def m_def y_def)
  ultimately show ?thesis
    by (simp add: power_int_minus_divide)
qed

lemma adjusted_upper:
  assumes "x \<noteq> 0"
  shows "\<bar>x\<bar> < 10 powi (adjusted x + 1)"
proof (cases "1 \<le> \<bar>x\<bar>")
  case True
  define m where "m = nat \<lfloor>\<bar>x\<bar>\<rfloor>"
  have m: "0 < m" "int m = \<lfloor>\<bar>x\<bar>\<rfloor>"
    using True by (simp_all add: m_def le_floor_iff)
  have a: "adjusted x + 1 = int (digits m)"
    using True by (simp add: adjusted_def m_def)
  have "\<bar>x\<bar> < of_int (\<lfloor>\<bar>x\<bar>\<rfloor> + 1)" by linarith
  also have "\<dots> = of_nat (m + 1)" using m(2) by simp
  also have "\<dots> \<le> of_nat (10 ^ digits m)"
    using digits_bounds [OF m(1)] by (simp only: of_nat_le_iff) simp
  finally show ?thesis by (simp add: a)
next
  case False
  define y where "y = 1 / \<bar>x\<bar>"
  have y: "1 < y" using False assms by (simp add: y_def)
  define m where "m = nat (\<lceil>y\<rceil> - 1)"
  have "2 \<le> \<lceil>y\<rceil>" using y by (simp add: le_ceiling_iff)
  then have m: "0 < m" "int m = \<lceil>y\<rceil> - 1" by (simp_all add: m_def)
  have "(10::rat) ^ (digits m - 1) = of_nat (10 ^ (digits m - 1))" by simp
  also have "\<dots> \<le> of_nat m"
    using digits_bounds [OF m(1)] by (simp only: of_nat_le_iff)
  also have "\<dots> = of_int (\<lceil>y\<rceil> - 1)" using m(2) by (metis of_int_of_nat_eq)
  also have "\<dots> < y" by linarith
  finally have "10 ^ (digits m - 1) < y" .
  then have lt: "\<bar>x\<bar> < 1 / 10 ^ (digits m - 1)"
    using assms by (simp add: y_def field_simps)
  have "adjusted x + 1 = - int (digits m - 1)"
    using False digits_pos [of m] by (simp add: adjusted_def m_def y_def)
  then show ?thesis
    using lt by (simp add: power_int_minus_divide)
qed

lemma adjusted_less:
  assumes "x \<noteq> 0" and "\<bar>x\<bar> < 10 powi b"
  shows "adjusted x < b"
proof (rule ccontr)
  assume "\<not> adjusted x < b"
  then have "(10::rat) powi b \<le> 10 powi adjusted x"
    by (intro power_int_increasing) simp_all
  also have "\<dots> \<le> \<bar>x\<bar>" using assms(1) by (rule adjusted_lower)
  finally show False using assms(2) by simp
qed

section \<open>Results that fit the context are exact\<close>

lemma round_half_even_of_int: "round_half_even (of_int k) = k"
  by (simp add: round_half_even_def)

lemma round_half_even_near: "\<bar>of_int (round_half_even y) - y\<bar> \<le> 1 / 2"
proof -
  have "of_int \<lfloor>y\<rfloor> \<le> y" "y < of_int \<lfloor>y\<rfloor> + 1" by linarith+
  then show ?thesis
    by (auto simp add: round_half_even_def Let_def)
qed

lemma round_to_prec_exact:
  assumes "\<bar>n\<bar> < 10 ^ 28"
  shows "round_to_prec (of_int n / 10 ^ k) = of_int n / 10 ^ k"
proof (cases "n = 0")
  case True
  then show ?thesis by (simp add: round_to_prec_def)
next
  case False
  define x :: rat where "x = of_int n / 10 ^ k"
  have x0: "x \<noteq> 0" using False by (simp add: x_def)
  have "\<bar>x\<bar> = of_int \<bar>n\<bar> / 10 ^ k" by (simp add: x_def)
  also have "\<dots> < of_int (10 ^ 28) / 10 ^ k"
    using assms by (intro divide_strict_right_mono) (simp_all only: of_int_less_iff zero_less_power zero_less_numeral)
  also have "\<dots> = 10 powi (28 - int k)"
    by (simp add: power_int_diff)
  finally have e: "adjusted x < 28 - int k"
    using x0 by (intro adjusted_less)
  show ?thesis
  proof (cases "27 \<le> adjusted x")
    case True
    with e have "k = 0" "adjusted x = 27" by simp_all
    then show ?thesis
      using x0 unfolding x_def [symmetric]
      by (simp add: round_to_prec_def x_def round_half_even_of_int)
  next
    case small: False
    define s where "s = nat (27 - adjusted x)"
    have sk: "k \<le> s" using e small by (simp add: s_def)
    obtain d where d: "s = k + d" using sk by (auto simp add: le_iff_add)
    have "x * 10 ^ s = of_int n * 10 ^ d"
      by (simp add: x_def d power_add)
    also have "\<dots> = of_int (n * 10 ^ d)" by simp
    finally have "round_half_even (x * 10 ^ s) = n * 10 ^ d"
      by (simp only: round_half_even_of_int)
    then have "round_to_prec x = of_int (n * 10 ^ d) / 10 ^ s"
      using x0 small by (simp add: round_to_prec_def s_def Let_def)
    also have "\<dots> = x"
      by (simp add: x_def d power_add)
    finally show ?thesis by (simp add: x_def)
  qed
qed

lemma two_places_iff: "two_places x = (\<exists>n::int. x = of_int n / 100)"
proof
  assume "two_places x"
  then have "of_int \<lfloor>x * 100\<rfloor> = x * 100" by (simp only: two_places_def)
  then have "x = of_int \<lfloor>x * 100\<rfloor> / 100" by (simp only: nonzero_mult_div_cancel_right [OF numeral_neq_zero])
  then show "\<exists>n::int. x = of_int n / 100" ..
next
  assume "\<exists>n::int. x = of_int n / 100"
  then show "two_places x" by (auto simp add: two_places_def)
qed

lemma round_to_prec_two_places:
  assumes "two_places x" and "\<bar>x\<bar> < 10 ^ 26"
  shows "round_to_prec x = x"
proof -
  obtain n :: int where x: "x = of_int n / 100"
    using assms(1) by (auto simp add: two_places_iff)
  have "\<bar>rat_of_int n\<bar> < 10 ^ 28" using assms(2) by (simp add: x)
  then have "\<bar>rat_of_int n\<bar> < of_int (10 ^ 28)" by simp
  then have "\<bar>n\<bar> < 10 ^ 28" by (simp only: of_int_abs [symmetric] of_int_less_iff)
  from round_to_prec_exact [OF this, of 2] show ?thesis by (simp add: x)
qed

section \<open>Rounding to two places\<close>

lemma round2_cents: "round2 (of_int k / 100) = of_int k / 100"
  by (simp add: round2_def round_half_even_of_int)

lemma round2_idem: "round2 (round2 x) = round2 x"
  unfolding round2_def [of x] by (rule round2_cents)

lemma round2_fixed_iff: "(round2 x = x) = two_places x"
proof
  assume "round2 x = x"
  then have "x = of_int (round_half_even (x * 100)) / 100"
    by (simp add: round2_def)
  then have "\<exists>n::int. x = of_int n / 100" ..
  then show "two_places x" by (simp only: two_places_iff)
next
  assume "two_places x"
  then obtain k :: int where "x = of_int k / 100"
    by (auto simp only: two_places_iff)
  then show "round2 x = x"
    by (simp only: round2_cents)
qed

lemma round2_zero: "round2 0 = 0"
  using round2_cents [of 0] by simp

lemma two_places_zero: "two_places 0"
  by (simp add: two_places_def)

lemma two_places_round2: "two_places (round2 x)"
  by (simp only: round2_fixed_iff [symmetric] round2_idem)

lemma two_places_add:
  assumes "two_places a" and "two_places b"
  shows "two_places (a + b)"
proof -
  obtain k l :: int where "a = of_int k / 100" and "b = of_int l / 100"
    using assms by (auto simp only: two_places_iff)
  then have "a + b = of_int (k + l) / 100"
    by (simp add: add_divide_distrib)
  then show ?thesis
    by (auto simp only: two_places_iff)
qed

lemma two_places_diff:
  assumes "two_places a" and "two_places b"
  shows "two_places (a - b)"
proof -
  obtain k l :: int where "a = of_int k / 100" and "b = of_int l / 100"
    using assms by (auto simp only: two_places_iff)
  then have "a - b = of_int (k - l) / 100"
    by (simp add: diff_divide_distrib)
  then show ?thesis
    by (auto simp only: two_places_iff)
qed

lemma two_places_mult_int:
  assumes "two_places b"
  shows "two_places (of_int c * b)"
proof -
  obtain l :: int where "b = of_int l / 100"
    using assms by (auto simp only: two_places_iff)
  then have "of_int c * b = of_int (c * l) / 100"
    by simp
  then show ?thesis
    by (auto simp only: two_places_iff)
qed

lemma two_places_sum_list:
  "(\<And>x. x \<in> set xs \<Longrightarrow> two_places x) \<Longrightarrow> two_places (sum_list xs)"
  by (induction xs) (simp_all add: two_places_zero two_places_add)

lemma py_round2_small:
  assumes "\<bar>x\<bar> < 10 ^ 25"
  shows "py_round2 (Some x) = Inr (round2 x)"
proof -
  have "\<bar>of_int (round_half_even (x * 100)) - x * 100\<bar> \<le> 1 / 2"
    by (rule round_half_even_near)
  moreover have "\<bar>x * 100\<bar> < 10 ^ 27"
    using assms by (simp add: abs_mult)
  ultimately have "\<bar>rat_of_int (round_half_even (x * 100))\<bar> < 1 / 2 + 10 ^ 27"
    by linarith
  moreover have "1 / 2 + 10 ^ 27 < (10::rat) ^ 28" by simp
  ultimately have "\<bar>rat_of_int (round_half_even (x * 100))\<bar> < 10 ^ 28"
    by (rule less_trans)
  then have "\<bar>rat_of_int (round_half_even (x * 100))\<bar> < of_int (10 ^ 28)" by simp
  then have "\<bar>round_half_even (x * 100)\<bar> < 10 ^ 28"
    by (simp only: of_int_abs [symmetric] of_int_less_iff)
  then show ?thesis by simp
qed

lemma py_round2_two_places: "py_round2 v = Inr t \<Longrightarrow> two_places t"
  by (cases v) (auto simp add: two_places_round2 split: if_splits)

section \<open>Exact operations on amounts\<close>

lemma dec_add_exact:
  "two_places a \<Longrightarrow> two_places b \<Longrightarrow> \<bar>a + b\<bar> < 10 ^ 26 \<Longrightarrow> dec_add a b = a + b"
  by (simp add: dec_add_def round_to_prec_two_places two_places_add)

lemma dec_sub_exact:
  "two_places a \<Longrightarrow> two_places b \<Longrightarrow> \<bar>a - b\<bar> < 10 ^ 26 \<Longrightarrow> dec_sub a b = a - b"
  by (simp add: dec_sub_def round_to_prec_two_places two_places_diff)

lemma dec_mul_int_exact:
  "two_places b \<Longrightarrow> \<bar>of_int c * b\<bar> < 10 ^ 26 \<Longrightarrow> dec_mul (of_int c) b = of_int c * b"
  by (simp add: dec_mul_def round_to_prec_two_places two_places_mult_int)

lemma percentage_exact:
  assumes "two_places a" and "\<bar>a\<bar> < 10 ^ 24" and "0 \<le> p" and "p \<le> 100"
  shows "dec_div (of_int p) 100 = of_int p / 100"
    and "dec_mul a (of_int p / 100) = a * (of_int p / 100)"
    and "dec_sub a (a * (of_int p / 100)) = a - a * (of_int p / 100)"
    and "dec_sub a (a - a * (of_int p / 100)) = a * (of_int p / 100)"
proof -
  obtain n :: int where a: "a = of_int n / 100"
    using assms(1) by (auto simp only: two_places_iff)
  have "\<bar>rat_of_int n\<bar> < 10 ^ 26" using assms(2) by (simp add: a)
  then have "\<bar>rat_of_int n\<bar> < of_int (10 ^ 26)" by simp
  then have n: "\<bar>n\<bar> < 10 ^ 26"
    by (simp only: of_int_abs [symmetric] of_int_less_iff)
  have "\<bar>p\<bar> < 10 ^ 28" using assms(3,4) by simp
  from round_to_prec_exact [OF this, of 2]
  show "dec_div (of_int p) 100 = of_int p / 100"
    by (simp add: dec_div_def)
  have "\<bar>n * p\<bar> = \<bar>n\<bar> * p" using assms(3) by (simp add: abs_mult)
  also have "\<dots> \<le> \<bar>n\<bar> * 100" using assms(4) by (intro mult_left_mono) simp_all
  also have "\<dots> < 10 ^ 28" using n by simp
  finally have np: "\<bar>n * p\<bar> < 10 ^ 28" .
  have ap: "a * (of_int p / 100) = of_int (n * p) / 10 ^ 4"
    by (simp add: a)
  from round_to_prec_exact [OF np, of 4]
  show "dec_mul a (of_int p / 100) = a * (of_int p / 100)"
    by (simp only: dec_mul_def ap)
  from round_to_prec_exact [OF np, of 4]
  show "dec_sub a (a - a * (of_int p / 100)) = a * (of_int p / 100)"
    by (simp only: dec_sub_def ap diff_diff_eq2 add_diff_cancel_left')
  have "\<bar>n * (100 - p)\<bar> = \<bar>n\<bar> * (100 - p)" using assms(4) by (simp add: abs_mult)
  also have "\<dots> \<le> \<bar>n\<bar> * 100" using assms(3) by (intro mult_left_mono) simp_all
  also have "\<dots> < 10 ^ 28" using n by simp
  finally have nq: "\<bar>n * (100 - p)\<bar> < 10 ^ 28" .
  have aq: "a - a * (of_int p / 100) = of_int (n * (100 - p)) / 10 ^ 4"
    by (simp add: a field_simps)
  from round_to_prec_exact [OF nq, of 4]
  show "dec_sub a (a * (of_int p / 100)) = a - a * (of_int p / 100)"
    by (simp only: dec_sub_def aq)
qed

lemma calculate_discount_price_exact:
  assumes "two_places a" and "0 < a" and "a < 10 ^ 24" and "0 < p" and "p \<le> 100"
  shows "calculate_discount_price a p = Some (a - a * (of_int p / 100))"
proof -
  have b: "\<bar>a\<bar> < 10 ^ 24" "0 \<le> p" using assms by simp_all
  have c: "\<not> (a \<le> 0 \<or> (of_int p :: decimal) \<le> 0)" using assms(2,4) by simp
  show ?thesis
    unfolding calculate_discount_price_def Let_def
    by (simp only: c if_False percentage_exact(1-3) [OF assms(1) b assms(5)])
qed

section \<open>The context at work\<close>

text \<open>
  The simplification rules that evaluate the decimal operations on numerals, and what
  they give where the precision is exhausted: a product of 27 digits is exact, a
  difference of 29 digits loses its last places, rounding a value of 27 integer digits to
  two places raises, half of a 28-digit amount is a cent off, and a quotient is cut to
  28 digits.
\<close>

lemmas decimal_eval =
  dec_add_def dec_sub_def dec_mul_def dec_div_def round_to_prec_def adjusted_def Let_def
  digits.simps round_half_even_def round2_def ceiling_def
  floor_rat_numeral_div floor_rat_neg_numeral_div

lemma context_precision_examples:
  "dec_mul 9000000000000000000 (9999999999 / 100) = 899999999910000000000000000"
  "dec_sub 899999999910000000000000000 (1001 / 100) = 899999999909999999999999990"
  "py_round2 (Some 899999999910000000000000000) = Inl InvalidOperation"
  "calculate_discount_price (9999999998999999990000000001 / 100) 50
     = Some (4999999999499999995000000001 / 100)"
  "dec_div 1 3 = 3333333333333333333333333333 / 10000000000000000000000000000"
  by (simp_all add: calculate_discount_price_def decimal_eval)

section \<open>The loop over the order lines\<close>

lemma paid_orders_nonempty: "True \<in> set (order_set u) \<Longrightarrow> paid_orders u \<noteq> []"
  by (auto simp add: paid_orders_def filter_empty_conv)

lemma line_total_two_places:
  "get_total_price_detail today self d = Inr t \<Longrightarrow> two_places t"
  by (cases "discount_code self")
     (auto simp add: get_total_price_detail_def Let_def two_places_round2
       split: if_splits sum.splits dest: py_round2_two_places)

lemma accumulate_details_cong:
  "(\<And>d. d \<in> set ds \<Longrightarrow> get_total_price_detail today s1 d = get_total_price_detail today s2 d)
   \<Longrightarrow> accumulate_details today s1 acc ds = accumulate_details today s2 acc ds"
  by (induction ds arbitrary: acc) (auto split: sum.splits)

lemma accumulate_details_exact:
  assumes "\<And>d. d \<in> set ds \<Longrightarrow> get_total_price_detail today self d = Inr (t d)"
    and "two_places acc"
    and "\<bar>acc\<bar> + sum_list (map (\<lambda>d. \<bar>t d\<bar>) ds) < 10 ^ 26"
  shows "accumulate_details today self acc ds = Inr (acc + sum_list (map t ds))"
  using assms
proof (induction ds arbitrary: acc)
  case Nil
  then show ?case by simp
next
  case (Cons d ds)
  have line: "get_total_price_detail today self d = Inr (t d)"
    by (rule Cons.prems(1)) simp
  then have td: "two_places (t d)" by (rule line_total_two_places)
  have nonneg: "0 \<le> sum_list (map (\<lambda>d. \<bar>t d\<bar>) ds)"
    by (rule sum_list_nonneg) auto
  have "\<bar>acc + t d\<bar> \<le> \<bar>acc\<bar> + \<bar>t d\<bar>" by (rule abs_triangle_ineq)
  with Cons.prems(3) nonneg have small: "\<bar>acc + t d\<bar> < 10 ^ 26"
    and rest: "\<bar>acc + t d\<bar> + sum_list (map (\<lambda>d. \<bar>t d\<bar>) ds) < 10 ^ 26"
    by simp_all
  have step: "dec_add acc (t d) = acc + t d"
    using Cons.prems(2) td small by (rule dec_add_exact)
  have "accumulate_details today self (acc + t d) ds = Inr (acc + t d + sum_list (map t ds))"
  proof (rule Cons.IH)
    show "get_total_price_detail today self d' = Inr (t d')" if "d' \<in> set ds" for d'
      using that by (intro Cons.prems(1)) simp
    show "two_places (acc + t d)" using Cons.prems(2) td by (rule two_places_add)
    show "\<bar>acc + t d\<bar> + sum_list (map (\<lambda>d. \<bar>t d\<bar>) ds) < 10 ^ 26" by (rule rest)
  qed
  then show ?case
    by (simp add: line step add.assoc)
qed

lemma abs_sum_list_le: "\<bar>sum_list (map f xs)\<bar> \<le> sum_list (map (\<lambda>x. \<bar>f x :: rat\<bar>) xs)"
  by (induction xs) (auto intro: order_trans [OF abs_triangle_ineq])

section \<open>Validity\<close>

text \<open>
  C3. \<open>is_valid\<close> is false exactly when the code is not active, or is soft-deleted, or its
  quantity is present and at most 0, or neither \<open>off_price\<close> nor \<open>off_per\<close> is set, or
  its expiry date is present and strictly before today; a code that expires today and
  passes the other checks is valid.
\<close>

theorem is_valid_false_iff:
  "(is_valid today dc = False) =
     (\<not> is_active dc \<or> is_delete dc
      \<or> (\<exists>q. quantity dc = Some q \<and> q \<le> 0)
      \<or> (off_price dc = None \<and> off_per dc = None)
      \<or> (\<exists>e. exp_date dc = Some e \<and> date_less e today))
   \<and> (exp_date dc = Some today \<longrightarrow>
        is_valid today dc =
          (is_active dc \<and> \<not> is_delete dc
           \<and> (\<forall>q. quantity dc = Some q \<longrightarrow> 0 < q)
           \<and> \<not> (off_price dc = None \<and> off_per dc = None)))"
proof -
  have irrefl: "\<not> date_less today today"
    by (cases today) simp
  show ?thesis
    by (cases "quantity dc"; cases "exp_date dc") (auto simp: is_valid_def irrefl)
qed

theorem is_valid_false_iff_witness:
  "exp_date \<lparr>code = ''SPRING'', off_per = Some 20, off_price = None, min_purchase = None,
       is_active = True, is_delete = False, is_first = False,
       exp_date = Some (Date 2024 5 17), quantity = Some 3,
       dc_category = None, dc_product = None\<rparr> = Some (Date 2024 5 17)
   \<and> is_valid (Date 2024 5 17)
       \<lparr>code = ''SPRING'', off_per = Some 20, off_price = None, min_purchase = None,
        is_active = True, is_delete = False, is_first = False,
        exp_date = Some (Date 2024 5 17), quantity = Some 3,
        dc_category = None, dc_product = None\<rparr>
   \<and> \<not> is_valid (Date 2024 5 18)
       \<lparr>code = ''SPRING'', off_per = Some 20, off_price = None, min_purchase = None,
        is_active = True, is_delete = False, is_first = False,
        exp_date = Some (Date 2024 5 17), quantity = Some 3,
        dc_category = None, dc_product = None\<rparr>"
  using is_valid_false_iff [of "Date 2024 5 17"
      "\<lparr>code = ''SPRING'', off_per = Some 20, off_price = None, min_purchase = None,
        is_active = True, is_delete = False, is_first = False,
        exp_date = Some (Date 2024 5 17), quantity = Some 3,
        dc_category = None, dc_product = None\<rparr>"]
    is_valid_false_iff [of "Date 2024 5 18"
      "\<lparr>code = ''SPRING'', off_per = Some 20, off_price = None, min_purchase = None,
        is_active = True, is_delete = False, is_first = False,
        exp_date = Some (Date 2024 5 17), quantity = Some 3,
        dc_category = None, dc_product = None\<rparr>"]
  by simp

section \<open>Scope rules\<close>

text \<open>
  C4. For a product whose category has a parent \<open>P\<close>, a code with both scope fields set
  matches the product by the category-and-product rule, and is applicable, exactly when
  the code's product is that product and the code's category is the product's category
  or \<open>P\<close>; with category \<open>P\<close> the match holds exactly for the product itself.
\<close>

theorem is_category_and_product_match_iff:
  assumes "parent (category product) = Some P"
    and "dc_category dc = Some c" and "dc_product dc = Some q"
  shows "is_category_and_product_match dc product =
           (product_pk q = product_pk product \<and>
            (category_pk c = category_pk (category product) \<or> category_pk c = category_pk P))
         \<and> is_discount_applicable dc product = is_category_and_product_match dc product
         \<and> (c = P \<longrightarrow> is_category_and_product_match dc product = (product_pk q = product_pk product))"
  using assms
  by (auto simp add: is_category_and_product_match_def is_discount_applicable_def
      is_category_match_def is_product_match_def)

theorem is_category_and_product_match_iff_witness:
  "is_category_and_product_match
     \<lparr>code = ''TEA'', off_per = Some 10, off_price = None, min_purchase = None,
      is_active = True, is_delete = False, is_first = False, exp_date = None, quantity = None,
      dc_category = Some (ProductCategory 1 None),
      dc_product = Some \<lparr>product_pk = 7, price = 12,
                          category = ProductCategory 2 (Some (ProductCategory 1 None))\<rparr>\<rparr>
     \<lparr>product_pk = 7, price = 12, category = ProductCategory 2 (Some (ProductCategory 1 None))\<rparr>
   \<and> \<not> is_category_and_product_match
     \<lparr>code = ''TEA'', off_per = Some 10, off_price = None, min_purchase = None,
      is_active = True, is_delete = False, is_first = False, exp_date = None, quantity = None,
      dc_category = Some (ProductCategory 1 None),
      dc_product = Some \<lparr>product_pk = 8, price = 30,
                          category = ProductCategory 2 (Some (ProductCategory 1 None))\<rparr>\<rparr>
     \<lparr>product_pk = 7, price = 12, category = ProductCategory 2 (Some (ProductCategory 1 None))\<rparr>"
  using is_category_and_product_match_iff [of
      "\<lparr>product_pk = 7, price = 12, category = ProductCategory 2 (Some (ProductCategory 1 None))\<rparr>"
      "ProductCategory 1 None"
      "\<lparr>code = ''TEA'', off_per = Some 10, off_price = None, min_purchase = None,
        is_active = True, is_delete = False, is_first = False, exp_date = None, quantity = None,
        dc_category = Some (ProductCategory 1 None),
        dc_product = Some \<lparr>product_pk = 7, price = 12,
                            category = ProductCategory 2 (Some (ProductCategory 1 None))\<rparr>\<rparr>"
      "ProductCategory 1 None"
      "\<lparr>product_pk = 7, price = 12, category = ProductCategory 2 (Some (ProductCategory 1 None))\<rparr>"]
    is_category_and_product_match_iff [of
      "\<lparr>product_pk = 7, price = 12, category = ProductCategory 2 (Some (ProductCategory 1 None))\<rparr>"
      "ProductCategory 1 None"
      "\<lparr>code = ''TEA'', off_per = Some 10, off_price = None, min_purchase = None,
        is_active = True, is_delete = False, is_first = False, exp_date = None, quantity = None,
        dc_category = Some (ProductCategory 1 None),
        dc_product = Some \<lparr>product_pk = 8, price = 30,
                            category = ProductCategory 2 (Some (ProductCategory 1 None))\<rparr>\<rparr>"
      "ProductCategory 1 None"
      "\<lparr>product_pk = 8, price = 30, category = ProductCategory 2 (Some (ProductCategory 1 None))\<rparr>"]
  by simp

section \<open>Overlap of the scope rules\<close>

text \<open>
  C9, as stated, fails: for a code with no category whose product is the product, and a
  product whose category has no parent, the product rule and the category-and-product
  rule both hold (\<open>None\<close> is a member of the set holding the absent parent).
\<close>

theorem scope_rules_overlap_counterexample:
  "is_product_match
     \<lparr>code = ''MUG10'', off_per = Some 10, off_price = None, min_purchase = None,
      is_active = True, is_delete = False, is_first = False, exp_date = None, quantity = None,
      dc_category = None,
      dc_product = Some \<lparr>product_pk = 7, price = 12, category = ProductCategory 1 None\<rparr>\<rparr>
     \<lparr>product_pk = 7, price = 12, category = ProductCategory 1 None\<rparr>
   \<and> is_category_and_product_match
     \<lparr>code = ''MUG10'', off_per = Some 10, off_price = None, min_purchase = None,
      is_active = True, is_delete = False, is_first = False, exp_date = None, quantity = None,
      dc_category = None,
      dc_product = Some \<lparr>product_pk = 7, price = 12, category = ProductCategory 1 None\<rparr>\<rparr>
     \<lparr>product_pk = 7, price = 12, category = ProductCategory 1 None\<rparr>"
  by (simp add: is_product_match_def is_category_and_product_match_def)

text \<open>
  C9, amended. The category rule excludes each of the other two rules; the product rule
  and the category-and-product rule hold together exactly when the code has no category,
  its product is the product, and the product's category has no parent.
\<close>

theorem scope_rules_overlap:
  "\<not> (is_category_match dc product \<and> is_product_match dc product)
   \<and> \<not> (is_category_match dc product \<and> is_category_and_product_match dc product)
   \<and> ((is_product_match dc product \<and> is_category_and_product_match dc product) =
        (dc_category dc = None \<and> product_eq (dc_product dc) (Some product)
         \<and> parent (category product) = None))"
  by (cases "dc_category dc"; cases "dc_product dc"; cases "parent (category product)")
     (auto simp add: is_category_and_product_match_def is_category_match_def is_product_match_def)

theorem scope_rules_overlap_witness:
  "\<not> is_category_and_product_match
     \<lparr>code = ''TEA'', off_per = Some 10, off_price = None, min_purchase = None,
      is_active = True, is_delete = False, is_first = False, exp_date = None, quantity = None,
      dc_category = Some (ProductCategory 2 (Some (ProductCategory 1 None))),
      dc_product = None\<rparr>
     \<lparr>product_pk = 7, price = 12, category = ProductCategory 2 (Some (ProductCategory 1 None))\<rparr>"
  using scope_rules_overlap [of
     "\<lparr>code = ''TEA'', off_per = Some 10, off_price = None, min_purchase = None,
      is_active = True, is_delete = False, is_first = False, exp_date = None, quantity = None,
      dc_category = Some (ProductCategory 2 (Some (ProductCategory 1 None))),
      dc_product = None\<rparr>"
     "\<lparr>product_pk = 7, price = 12, category = ProductCategory 2 (Some (ProductCategory 1 None))\<rparr>"]
  by (simp add: is_category_match_def)

section \<open>Minimum purchase and fixed discount\<close>

text \<open>
  C6. When \<open>min_purchase\<close> is set and the total is strictly below it,
  \<open>compute_discount_amount\<close> returns the total unchanged, as a value and not as an error.
\<close>

theorem compute_discount_amount_below_min_purchase:
  "min_purchase dc = Some m \<Longrightarrow> amount < m \<Longrightarrow> compute_discount_amount dc amount = Inr (Some amount)"
  by (simp add: compute_discount_amount_def)

theorem compute_discount_amount_below_min_purchase_witness:
  "(4999 / 100 :: decimal) < 50
   \<and> compute_discount_amount
     \<lparr>code = ''BULK'', off_per = Some 20, off_price = Some 30, min_purchase = Some 50,
      is_active = True, is_delete = False, is_first = False, exp_date = None, quantity = None,
      dc_category = None, dc_product = None\<rparr> (4999 / 100) = Inr (Some (4999 / 100))"
  using compute_discount_amount_below_min_purchase [of
      "\<lparr>code = ''BULK'', off_per = Some 20, off_price = Some 30, min_purchase = Some 50,
        is_active = True, is_delete = False, is_first = False, exp_date = None, quantity = None,
        dc_category = None, dc_product = None\<rparr>" 50 "4999 / 100"]
  by simp

text \<open>
  C7. With only \<open>off_price\<close> set and \<open>min_purchase\<close> absent or met,
  \<open>compute_discount_amount\<close> returns the decimal difference of the total and
  \<open>off_price\<close>, with no floor at zero; for two-place amounts whose difference is below
  \<open>10^26\<close> that is exactly the total minus \<open>off_price\<close>: a total of 10 with
  \<open>off_price = 15\<close> gives -5.
\<close>

theorem compute_discount_amount_fixed_only:
  assumes "off_price dc = Some f" and "off_per dc = None"
    and "case min_purchase dc of None \<Rightarrow> True | Some m \<Rightarrow> m \<le> amount"
  shows "compute_discount_amount dc amount = Inr (Some (dec_sub amount f))
         \<and> (two_places amount \<and> two_places f \<and> \<bar>amount - f\<bar> < 10 ^ 26 \<longrightarrow>
              compute_discount_amount dc amount = Inr (Some (amount - f)))"
  using assms by (simp add: compute_discount_amount_def dec_sub_exact)

theorem compute_discount_amount_fixed_only_witness:
  "compute_discount_amount
     \<lparr>code = ''FIFTEEN'', off_per = None, off_price = Some 15, min_purchase = None,
      is_active = True, is_delete = False, is_first = False, exp_date = None, quantity = None,
      dc_category = None, dc_product = None\<rparr> 10 = Inr (Some (- 5))"
  using compute_discount_amount_fixed_only [of
      "\<lparr>code = ''FIFTEEN'', off_per = None, off_price = Some 15, min_purchase = None,
        is_active = True, is_delete = False, is_first = False, exp_date = None, quantity = None,
        dc_category = None, dc_product = None\<rparr>" 15 10, THEN conjunct2]
  by (simp add: two_places_def)

section \<open>Combined discount\<close>

text \<open>
  C1, as stated, fails for a percentage of 0: the percentage primitive returns \<open>None\<close> for
  a valid code with \<open>off_per = 0\<close>, \<open>off_price = 5\<close> on a total of 100, and the
  subtraction \<open>total - None\<close> raises \<open>TypeError\<close>.
\<close>

theorem compute_discount_amount_both_counterexample:
  "is_valid (Date 2024 5 17)
     \<lparr>code = ''COMBO'', off_per = Some 0, off_price = Some 5, min_purchase = None,
      is_active = True, is_delete = False, is_first = False, exp_date = None, quantity = None,
      dc_category = None, dc_product = None\<rparr>
   \<and> compute_discount_amount
     \<lparr>code = ''COMBO'', off_per = Some 0, off_price = Some 5, min_purchase = None,
      is_active = True, is_delete = False, is_first = False, exp_date = None, quantity = None,
      dc_category = None, dc_product = None\<rparr> 100 = Inl TypeError"
  by (simp add: is_valid_def compute_discount_amount_def calculate_discount_price_def)

text \<open>
  C1, amended. For a code with both \<open>off_per\<close> and \<open>off_price\<close> set, \<open>min_purchase\<close>
  absent or met, a positive total and a positive percentage, \<open>compute_discount_amount\<close>
  takes the percentage result, lets the reduction be the total minus that result, and
  returns the total minus \<open>off_price\<close> when the reduction exceeds \<open>off_price\<close>, the
  percentage result otherwise, all in decimal arithmetic. For two-place amounts below
  \<open>10^24\<close> and a percentage up to 100 every step is exact and the result is the total
  minus the smaller of the two reductions, the percentage mode on a tie.
\<close>

theorem compute_discount_amount_both:
  assumes "off_per dc = Some p" and "off_price dc = Some f"
    and "case min_purchase dc of None \<Rightarrow> True | Some m \<Rightarrow> m \<le> amount"
    and "0 < amount" and "0 < p"
  shows "compute_discount_amount dc amount =
           Inr (Some (let percentage_result =
                            dec_sub amount (dec_mul amount (dec_div (of_int p) 100));
                          reduction = dec_sub amount percentage_result
                      in if reduction > f then dec_sub amount f else percentage_result))
         \<and> (two_places amount \<and> amount < 10 ^ 24 \<and> two_places f \<and> \<bar>f\<bar> < 10 ^ 24 \<and> p \<le> 100 \<longrightarrow>
              compute_discount_amount dc amount =
                Inr (Some (amount - min (amount * (of_int p / 100)) f)))"
proof
  show "compute_discount_amount dc amount =
           Inr (Some (let percentage_result =
                            dec_sub amount (dec_mul amount (dec_div (of_int p) 100));
                          reduction = dec_sub amount percentage_result
                      in if reduction > f then dec_sub amount f else percentage_result))"
    using assms by (simp add: compute_discount_amount_def calculate_discount_price_def Let_def)
next
  show "two_places amount \<and> amount < 10 ^ 24 \<and> two_places f \<and> \<bar>f\<bar> < 10 ^ 24 \<and> p \<le> 100 \<longrightarrow>
          compute_discount_amount dc amount =
            Inr (Some (amount - min (amount * (of_int p / 100)) f))"
  proof
    assume h: "two_places amount \<and> amount < 10 ^ 24 \<and> two_places f \<and> \<bar>f\<bar> < 10 ^ 24 \<and> p \<le> 100"
    then have a: "two_places amount" "\<bar>amount\<bar> < 10 ^ 24" "0 \<le> p" "p \<le> 100"
      using assms(4,5) by simp_all
    have pct: "calculate_discount_price amount p = Some (amount - amount * (of_int p / 100))"
      using h assms(4,5) by (intro calculate_discount_price_exact) simp_all
    have red: "dec_sub amount (amount - amount * (of_int p / 100)) = amount * (of_int p / 100)"
      by (rule percentage_exact(4) [OF a])
    have "\<bar>amount - f\<bar> \<le> \<bar>amount\<bar> + \<bar>f\<bar>" by (rule abs_triangle_ineq4)
    also have "\<dots> < 10 ^ 24 + 10 ^ 24" using a(2) h by (intro add_strict_mono) simp_all
    also have "\<dots> < (10::rat) ^ 26" by simp
    finally have fixed: "dec_sub amount f = amount - f"
      using h by (intro dec_sub_exact) simp_all
    show "compute_discount_amount dc amount =
            Inr (Some (amount - min (amount * (of_int p / 100)) f))"
      using assms(1-3)
      by (simp only: compute_discount_amount_def pct red fixed Let_def min_def
          option.case prod.case if_True)
        (simp add: not_less)
  qed
qed

theorem compute_discount_amount_both_witness:
  "compute_discount_amount
     \<lparr>code = ''COMBO'', off_per = Some 50, off_price = Some 10, min_purchase = None,
      is_active = True, is_delete = False, is_first = False, exp_date = None, quantity = None,
      dc_category = None, dc_product = None\<rparr> 100 = Inr (Some 90)
   \<and> compute_discount_amount
     \<lparr>code = ''COMBO'', off_per = Some 20, off_price = Some 30, min_purchase = Some 100,
      is_active = True, is_delete = False, is_first = False, exp_date = None, quantity = None,
      dc_category = None, dc_product = None\<rparr> 100 = Inr (Some 80)"
  using compute_discount_amount_both [of
      "\<lparr>code = ''COMBO'', off_per = Some 50, off_price = Some 10, min_purchase = None,
        is_active = True, is_delete = False, is_first = False, exp_date = None, quantity = None,
        dc_category = None, dc_product = None\<rparr>" 50 10 100, THEN conjunct2]
    compute_discount_amount_both [of
      "\<lparr>code = ''COMBO'', off_per = Some 20, off_price = Some 30, min_purchase = Some 100,
        is_active = True, is_delete = False, is_first = False, exp_date = None, quantity = None,
        dc_category = None, dc_product = None\<rparr>" 20 30 100, THEN conjunct2]
  by (simp add: two_places_def)

section \<open>The absent percentage result\<close>

text \<open>
  C8. For a product of price 0 and a valid code of 10 percent scoped to it, the percentage
  primitive returns \<open>None\<close>; \<open>compute_discount_amount\<close> hands the \<open>None\<close> on instead of
  the undiscounted amount 0, and the line total raises \<open>TypeError\<close> when it rounds it.
\<close>

theorem absent_percentage_result_unhandled:
  "calculate_discount_price 0 10 = None
   \<and> compute_discount_amount
     \<lparr>code = ''GIFT'', off_per = Some 10, off_price = None, min_purchase = None,
      is_active = True, is_delete = False, is_first = False, exp_date = None, quantity = None,
      dc_category = None,
      dc_product = Some \<lparr>product_pk = 7, price = 0, category = ProductCategory 1 None\<rparr>\<rparr> 0
     = Inr None
   \<and> get_total_price_detail (Date 2024 5 17)
     \<lparr>user = \<lparr>order_set = []\<rparr>, is_payment = False,
      discount_code = Some
        \<lparr>code = ''GIFT'', off_per = Some 10, off_price = None, min_purchase = None,
         is_active = True, is_delete = False, is_first = False, exp_date = None, quantity = None,
         dc_category = None,
         dc_product = Some \<lparr>product_pk = 7, price = 0, category = ProductCategory 1 None\<rparr>\<rparr>\<rparr>
     \<lparr>od_product = \<lparr>product_pk = 7, price = 0, category = ProductCategory 1 None\<rparr>,
      final_price = None, count = 1\<rparr> = Inl TypeError"
  by (simp add: calculate_discount_price_def compute_discount_amount_def get_total_price_detail_def
      is_valid_def is_discount_applicable_def is_product_match_def dec_mul_def round_to_prec_def)

section \<open>First-time codes\<close>

text \<open>
  C5. With a valid first-only code and a user who has a paid order, every line total and
  the order total are what they are for the same order without any code, whatever
  \<open>off_per\<close> and \<open>off_price\<close> are. For two-place prices and bases below \<open>10^24\<close> in
  sum, the line total is the rounded undiscounted base \<open>count * price\<close> and the order
  total is the sum of the rounded undiscounted bases.
\<close>

theorem first_time_code_forfeited:
  assumes "discount_code self = Some dc" and "is_valid today dc" and "is_first dc"
    and "True \<in> set (order_set (user self))"
  shows "get_total_price_detail today self d =
           get_total_price_detail today (self\<lparr>discount_code := None\<rparr>) d
         \<and> get_total_price_order today self details =
           get_total_price_order today (self\<lparr>discount_code := None\<rparr>) details
         \<and> (two_places (price (od_product d))
              \<and> \<bar>of_int (count d) * price (od_product d)\<bar> < 10 ^ 24 \<longrightarrow>
            get_total_price_detail today self d =
              Inr (round2 (of_int (count d) * price (od_product d))))
         \<and> ((\<forall>d \<in> set details. two_places (price (od_product d)))
              \<and> sum_list (map (\<lambda>d. \<bar>of_int (count d) * price (od_product d)\<bar>) details) < 10 ^ 24 \<longrightarrow>
            get_total_price_order today self details =
              Inr (sum_list (map (\<lambda>d. round2 (of_int (count d) * price (od_product d))) details)))"
proof -
  let ?base = "\<lambda>d. of_int (count d) * price (od_product d)"
  have paid: "paid_orders (user self) \<noteq> []"
    using assms(4) by (rule paid_orders_nonempty)
  have line: "get_total_price_detail today self d' =
                py_round2 (Some (dec_mul (of_int (count d')) (price (od_product d'))))" for d'
    using assms(1-3) paid by (simp add: get_total_price_detail_def)
  then have same_line: "get_total_price_detail today self d' =
                get_total_price_detail today (self\<lparr>discount_code := None\<rparr>) d'" for d'
    by (simp add: get_total_price_detail_def)
  have "accumulate_details today self 0 details =
          accumulate_details today (self\<lparr>discount_code := None\<rparr>) 0 details"
    by (rule accumulate_details_cong) (rule same_line)
  then have same_order: "get_total_price_order today self details =
          get_total_price_order today (self\<lparr>discount_code := None\<rparr>) details"
    using assms(1-3) paid by (simp add: get_total_price_order_def split: sum.splits)
  have exact_line: "get_total_price_detail today self d' = Inr (round2 (?base d'))"
    if "two_places (price (od_product d'))" and "\<bar>?base d'\<bar> < 10 ^ 24" for d'
  proof -
    have "\<bar>?base d'\<bar> < 10 ^ 26" "\<bar>?base d'\<bar> < 10 ^ 25"
      using that(2) by simp_all
    then show ?thesis
      using that(1) by (simp only: line dec_mul_int_exact py_round2_small)
  qed
  have exact_order: "get_total_price_order today self details =
      Inr (sum_list (map (\<lambda>d. round2 (?base d)) details))"
    if tp: "\<forall>d \<in> set details. two_places (price (od_product d))"
      and bound: "sum_list (map (\<lambda>d. \<bar>?base d\<bar>) details) < 10 ^ 24"
  proof -
    have each: "\<bar>?base d'\<bar> < 10 ^ 24" if "d' \<in> set details" for d'
    proof -
      have "\<bar>?base d'\<bar> \<le> sum_list (map (\<lambda>d. \<bar>?base d\<bar>) details)"
        using that by (intro member_le_sum_list) auto
      with bound show ?thesis by simp
    qed
    have fixed: "round2 (?base d') = ?base d'" if "d' \<in> set details" for d'
      using tp that by (simp add: round2_fixed_iff two_places_mult_int)
    have lines: "get_total_price_detail today self d' = Inr (?base d')" if "d' \<in> set details" for d'
      using exact_line [of d'] tp each [OF that] fixed [OF that] that by simp
    have "accumulate_details today self 0 details = Inr (0 + sum_list (map ?base details))"
      using lines two_places_zero
    proof (rule accumulate_details_exact)
      show "\<bar>0::rat\<bar> + sum_list (map (\<lambda>d. \<bar>?base d\<bar>) details) < 10 ^ 26"
        using bound by simp
    qed
    then have acc: "accumulate_details today self 0 details = Inr (sum_list (map ?base details))"
      by simp
    have "\<bar>sum_list (map ?base details)\<bar> \<le> sum_list (map (\<lambda>d. \<bar>?base d\<bar>) details)"
      by (rule abs_sum_list_le)
    with bound have small: "\<bar>sum_list (map ?base details)\<bar> < 10 ^ 25" by simp
    have "two_places (sum_list (map ?base details))"
      using tp by (intro two_places_sum_list) (auto simp add: two_places_mult_int)
    then have "round2 (sum_list (map ?base details)) = sum_list (map ?base details)"
      by (simp only: round2_fixed_iff)
    then have total: "get_total_price_order today self details =
        Inr (sum_list (map ?base details))"
      using assms(1-3) paid py_round2_small [OF small]
      by (simp add: get_total_price_order_def acc del: py_round2.simps)
    have "map (\<lambda>d. round2 (?base d)) details = map ?base details"
      by (rule map_cong) (simp_all add: fixed)
    with total show ?thesis by (simp only:)
  qed
  from same_line same_order exact_line exact_order show ?thesis by blast
qed

theorem first_time_code_forfeited_witness:
  "get_total_price_detail (Date 2024 5 17)
     \<lparr>user = \<lparr>order_set = [False, True]\<rparr>, is_payment = False,
      discount_code = Some
        \<lparr>code = ''WELCOME'', off_per = Some 50, off_price = None, min_purchase = None,
         is_active = True, is_delete = False, is_first = True, exp_date = None, quantity = None,
         dc_category = None, dc_product = None\<rparr>\<rparr>
     \<lparr>od_product = \<lparr>product_pk = 7, price = 999 / 100, category = ProductCategory 3 None\<rparr>,
      final_price = None, count = 2\<rparr> = Inr (1998 / 100)
   \<and> get_total_price_order (Date 2024 5 17)
     \<lparr>user = \<lparr>order_set = [False, True]\<rparr>, is_payment = False,
      discount_code = Some
        \<lparr>code = ''WELCOME'', off_per = Some 50, off_price = None, min_purchase = None,
         is_active = True, is_delete = False, is_first = True, exp_date = None, quantity = None,
         dc_category = None, dc_product = None\<rparr>\<rparr>
     [\<lparr>od_product = \<lparr>product_pk = 7, price = 999 / 100, category = ProductCategory 3 None\<rparr>,
       final_price = None, count = 2\<rparr>] = Inr (1998 / 100)"
  using first_time_code_forfeited [of
      "\<lparr>user = \<lparr>order_set = [False, True]\<rparr>, is_payment = False,
        discount_code = Some
          \<lparr>code = ''WELCOME'', off_per = Some 50, off_price = None, min_purchase = None,
           is_active = True, is_delete = False, is_first = True, exp_date = None, quantity = None,
           dc_category = None, dc_product = None\<rparr>\<rparr>"
      "\<lparr>code = ''WELCOME'', off_per = Some 50, off_price = None, min_purchase = None,
        is_active = True, is_delete = False, is_first = True, exp_date = None, quantity = None,
        dc_category = None, dc_product = None\<rparr>"
      "Date 2024 5 17"
      "\<lparr>od_product = \<lparr>product_pk = 7, price = 999 / 100, category = ProductCategory 3 None\<rparr>,
        final_price = None, count = 2\<rparr>"
      "[\<lparr>od_product = \<lparr>product_pk = 7, price = 999 / 100, category = ProductCategory 3 None\<rparr>,
         final_price = None, count = 2\<rparr>]",
      THEN conjunct2, THEN conjunct2]
  by (simp add: is_valid_def two_places_def round2_def round_half_even_def Let_def
      floor_rat_numeral_div)

section \<open>Order total\<close>

text \<open>
  C2, as stated, fails where no rounded total comes back. With a valid order-level code of
  0 percent on a line total of 20 the percentage primitive returns \<open>None\<close> and the final
  rounding raises \<open>TypeError\<close>; with two lines of 99999999989999999900000000.01 and no
  code at all the sum exceeds the precision and the final rounding raises
  \<open>InvalidOperation\<close>.
\<close>

theorem get_total_price_order_rounds_discounted_sum_counterexample:
  "is_valid (Date 2024 5 17)
     \<lparr>code = ''ZERO'', off_per = Some 0, off_price = None, min_purchase = None,
      is_active = True, is_delete = False, is_first = False, exp_date = None, quantity = None,
      dc_category = None, dc_product = None\<rparr>
   \<and> get_total_price_detail (Date 2024 5 17)
     \<lparr>user = \<lparr>order_set = []\<rparr>, is_payment = False,
      discount_code = Some
        \<lparr>code = ''ZERO'', off_per = Some 0, off_price = None, min_purchase = None,
         is_active = True, is_delete = False, is_first = False, exp_date = None, quantity = None,
         dc_category = None, dc_product = None\<rparr>\<rparr>
     \<lparr>od_product = \<lparr>product_pk = 7, price = 10, category = ProductCategory 3 None\<rparr>,
      final_price = None, count = 2\<rparr> = Inr 20
   \<and> get_total_price_order (Date 2024 5 17)
     \<lparr>user = \<lparr>order_set = []\<rparr>, is_payment = False,
      discount_code = Some
        \<lparr>code = ''ZERO'', off_per = Some 0, off_price = None, min_purchase = None,
         is_active = True, is_delete = False, is_first = False, exp_date = None, quantity = None,
         dc_category = None, dc_product = None\<rparr>\<rparr>
     [\<lparr>od_product = \<lparr>product_pk = 7, price = 10, category = ProductCategory 3 None\<rparr>,
       final_price = None, count = 2\<rparr>] = Inl TypeError
   \<and> get_total_price_detail (Date 2024 5 17)
     \<lparr>user = \<lparr>order_set = []\<rparr>, is_payment = False, discount_code = None\<rparr>
     \<lparr>od_product = \<lparr>product_pk = 7, price = 9999999999 / 100,
                      category = ProductCategory 3 None\<rparr>,
      final_price = None, count = 999999999999999999\<rparr>
       = Inr (9999999998999999990000000001 / 100)
   \<and> get_total_price_order (Date 2024 5 17)
     \<lparr>user = \<lparr>order_set = []\<rparr>, is_payment = False, discount_code = None\<rparr>
     [\<lparr>od_product = \<lparr>product_pk = 7, price = 9999999999 / 100,
                       category = ProductCategory 3 None\<rparr>,
       final_price = None, count = 999999999999999999\<rparr>,
      \<lparr>od_product = \<lparr>product_pk = 7, price = 9999999999 / 100,
                       category = ProductCategory 3 None\<rparr>,
       final_price = None, count = 999999999999999999\<rparr>] = Inl InvalidOperation"
  by (simp add: is_valid_def get_total_price_detail_def get_total_price_order_def
      is_discount_applicable_def is_category_match_def is_product_match_def
      is_category_and_product_match_def compute_discount_amount_def
      calculate_discount_price_def paid_orders_def decimal_eval)

text \<open>
  C2, amended. For an order whose line totals are all returned and are below \<open>10^24\<close>
  in sum: every line total is already rounded to two places; \<open>get_total_price_order\<close>
  sums them; only if a code exists, is valid, has neither category nor product and is not
  first-only unless the user has no prior paid order, the sum is replaced by
  \<open>compute_discount_amount\<close> of it; and when that gives a number below \<open>10^24\<close>, the
  order total is that number rounded to two places.
\<close>

theorem get_total_price_order_rounds_discounted_sum:
  assumes "\<forall>d \<in> set details. get_total_price_detail today self d = Inr (t d)"
    and "sum_list (map (\<lambda>d. \<bar>t d\<bar>) details) < 10 ^ 24"
    and "(case order_level_discount today self of
            None \<Rightarrow> Inr (Some (sum_list (map t details)))
          | Some dc \<Rightarrow> compute_discount_amount dc (sum_list (map t details))) = Inr (Some v)"
    and "\<bar>v\<bar> < 10 ^ 24"
  shows "get_total_price_order today self details = Inr (round2 v)
         \<and> (\<forall>d \<in> set details. round2 (t d) = t d)"
proof
  have "accumulate_details today self 0 details = Inr (0 + sum_list (map t details))"
  proof (rule accumulate_details_exact)
    show "get_total_price_detail today self d = Inr (t d)" if "d \<in> set details" for d
      using assms(1) that by simp
    show "two_places 0" by (rule two_places_zero)
    show "\<bar>0::rat\<bar> + sum_list (map (\<lambda>d. \<bar>t d\<bar>) details) < 10 ^ 26"
      using assms(2) by simp
  qed
  then have acc: "accumulate_details today self 0 details = Inr (sum_list (map t details))"
    by simp
  have "\<bar>v\<bar> < 10 ^ 25" using assms(4) by simp
  then have r: "py_round2 (Some v) = Inr (round2 v)" by (rule py_round2_small)
  show "get_total_price_order today self details = Inr (round2 v)"
    using assms(3)
    by (cases "discount_code self")
       (auto simp add: get_total_price_order_def acc r order_level_discount_def
         simp del: py_round2.simps split: if_splits)
next
  show "\<forall>d \<in> set details. round2 (t d) = t d"
    using assms(1) by (auto simp add: round2_fixed_iff dest: line_total_two_places)
qed

theorem get_total_price_order_rounds_discounted_sum_witness:
  "get_total_price_order (Date 2024 5 17)
     \<lparr>user = \<lparr>order_set = []\<rparr>, is_payment = False,
      discount_code = Some
        \<lparr>code = ''MUG15'', off_per = Some 15, off_price = None, min_purchase = None,
         is_active = True, is_delete = False, is_first = False, exp_date = None, quantity = None,
         dc_category = None,
         dc_product = Some \<lparr>product_pk = 7, price = 997 / 100,
                             category = ProductCategory 3 None\<rparr>\<rparr>\<rparr>
     [\<lparr>od_product = \<lparr>product_pk = 7, price = 997 / 100, category = ProductCategory 3 None\<rparr>,
       final_price = None, count = 1\<rparr>,
      \<lparr>od_product = \<lparr>product_pk = 7, price = 997 / 100, category = ProductCategory 3 None\<rparr>,
       final_price = None, count = 1\<rparr>] = Inr (1694 / 100)
   \<and> get_total_price_order (Date 2024 5 17)
     \<lparr>user = \<lparr>order_set = []\<rparr>, is_payment = False,
      discount_code = Some
        \<lparr>code = ''TENOFF'', off_per = Some 10, off_price = None, min_purchase = None,
         is_active = True, is_delete = False, is_first = False, exp_date = None, quantity = None,
         dc_category = None, dc_product = None\<rparr>\<rparr>
     [\<lparr>od_product = \<lparr>product_pk = 7, price = 2505 / 100, category = ProductCategory 3 None\<rparr>,
       final_price = None, count = 1\<rparr>] = Inr (2254 / 100)"
proof -
  let ?today = "Date 2024 5 17"
  let ?mug = "\<lparr>product_pk = 7, price = 997 / 100, category = ProductCategory 3 None\<rparr>"
  let ?mug_line = "\<lparr>od_product = ?mug, final_price = None, count = 1\<rparr>"
  let ?mug_code = "\<lparr>code = ''MUG15'', off_per = Some 15, off_price = None, min_purchase = None,
         is_active = True, is_delete = False, is_first = False, exp_date = None, quantity = None,
         dc_category = None, dc_product = Some ?mug\<rparr>"
  let ?mug_order = "\<lparr>user = \<lparr>order_set = []\<rparr>, is_payment = False,
      discount_code = Some ?mug_code\<rparr>"
  let ?pot_line = "\<lparr>od_product = \<lparr>product_pk = 7, price = 2505 / 100,
                               category = ProductCategory 3 None\<rparr>,
       final_price = None, count = 1\<rparr>"
  let ?ten_code = "\<lparr>code = ''TENOFF'', off_per = Some 10, off_price = None, min_purchase = None,
         is_active = True, is_delete = False, is_first = False, exp_date = None, quantity = None,
         dc_category = None, dc_product = None\<rparr>"
  let ?ten_order = "\<lparr>user = \<lparr>order_set = []\<rparr>, is_payment = False,
      discount_code = Some ?ten_code\<rparr>"
  have mug: "\<forall>d \<in> set [?mug_line, ?mug_line].
      get_total_price_detail ?today ?mug_order d = Inr ((\<lambda>_. 847 / 100) d)"
    by (simp add: get_total_price_detail_def is_valid_def is_discount_applicable_def
        is_product_match_def compute_discount_amount_def calculate_discount_price_def
        decimal_eval)
  have mug_sum: "(case order_level_discount ?today ?mug_order of
            None \<Rightarrow> Inr (Some (sum_list (map (\<lambda>_. 847 / 100) [?mug_line, ?mug_line])))
          | Some dc \<Rightarrow> compute_discount_amount dc
              (sum_list (map (\<lambda>_. 847 / 100) [?mug_line, ?mug_line]))) = Inr (Some (1694 / 100))"
    by (simp add: order_level_discount_def is_valid_def)
  have pot: "\<forall>d \<in> set [?pot_line].
      get_total_price_detail ?today ?ten_order d = Inr ((\<lambda>_. 2505 / 100) d)"
    by (simp add: get_total_price_detail_def is_valid_def is_discount_applicable_def
        is_product_match_def is_category_match_def is_category_and_product_match_def
        paid_orders_def decimal_eval)
  have pot_sum: "(case order_level_discount ?today ?ten_order of
            None \<Rightarrow> Inr (Some (sum_list (map (\<lambda>_. 2505 / 100) [?pot_line])))
          | Some dc \<Rightarrow> compute_discount_amount dc
              (sum_list (map (\<lambda>_. 2505 / 100) [?pot_line]))) = Inr (Some (22545 / 1000))"
    by (simp add: order_level_discount_def is_valid_def paid_orders_def
        compute_discount_amount_def calculate_discount_price_def decimal_eval)
  from get_total_price_order_rounds_discounted_sum [OF mug _ mug_sum]
    get_total_price_order_rounds_discounted_sum [OF pot _ pot_sum]
  show ?thesis
    by (simp add: round2_def round_half_even_def Let_def floor_rat_numeral_div)
qed

section \<open>Percentage code on a zero order total\<close>

text \<open>
  C10, as stated, fails when the code has a positive \<open>min_purchase\<close>: the zero total is
  below it, the percentage primitive is never called, and the order total is 0.
\<close>

theorem get_total_price_order_zero_total_counterexample:
  "is_valid (Date 2024 5 17)
     \<lparr>code = ''TENOFF'', off_per = Some 10, off_price = None, min_purchase = Some 50,
      is_active = True, is_delete = False, is_first = False, exp_date = None, quantity = None,
      dc_category = None, dc_product = None\<rparr>
   \<and> accumulate_details (Date 2024 5 17)
     \<lparr>user = \<lparr>order_set = []\<rparr>, is_payment = False,
      discount_code = Some
        \<lparr>code = ''TENOFF'', off_per = Some 10, off_price = None, min_purchase = Some 50,
         is_active = True, is_delete = False, is_first = False, exp_date = None, quantity = None,
         dc_category = None, dc_product = None\<rparr>\<rparr> 0 [] = Inr 0
   \<and> get_total_price_order (Date 2024 5 17)
     \<lparr>user = \<lparr>order_set = []\<rparr>, is_payment = False,
      discount_code = Some
        \<lparr>code = ''TENOFF'', off_per = Some 10, off_price = None, min_purchase = Some 50,
         is_active = True, is_delete = False, is_first = False, exp_date = None, quantity = None,
         dc_category = None, dc_product = None\<rparr>\<rparr> [] = Inr 0"
  by (simp add: is_valid_def get_total_price_order_def compute_discount_amount_def round2_zero
      round_half_even_def)

text \<open>
  C10, amended. For an order whose summed line total is 0 and a valid code with no
  category, no product, not first-only, only \<open>off_per\<close> set, and \<open>min_purchase\<close> absent or
  at most 0, \<open>get_total_price_order\<close> raises \<open>TypeError\<close>: the percentage primitive returns
  \<open>None\<close> for the zero amount and the final rounding of \<open>None\<close> fails.
\<close>

theorem get_total_price_order_zero_total_raises:
  assumes "discount_code self = Some dc" and "is_valid today dc"
    and "dc_category dc = None" and "dc_product dc = None" and "\<not> is_first dc"
    and "off_price dc = None" and "off_per dc = Some p"
    and "case min_purchase dc of None \<Rightarrow> True | Some m \<Rightarrow> m \<le> 0"
    and "accumulate_details today self 0 details = Inr 0"
  shows "get_total_price_order today self details = Inl TypeError"
  using assms
  by (simp add: get_total_price_order_def compute_discount_amount_def calculate_discount_price_def)

theorem get_total_price_order_zero_total_raises_witness:
  "get_total_price_order (Date 2024 5 17)
     \<lparr>user = \<lparr>order_set = []\<rparr>, is_payment = False,
      discount_code = Some
        \<lparr>code = ''TENOFF'', off_per = Some 10, off_price = None, min_purchase = None,
         is_active = True, is_delete = False, is_first = False, exp_date = None, quantity = None,
         dc_category = None, dc_product = None\<rparr>\<rparr> [] = Inl TypeError
   \<and> get_total_price_order (Date 2024 5 17)
     \<lparr>user = \<lparr>order_set = []\<rparr>, is_payment = False,
      discount_code = Some
        \<lparr>code = ''TENOFF'', off_per = Some 10, off_price = None, min_purchase = Some 0,
         is_active = True, is_delete = False, is_first = False, exp_date = None, quantity = None,
         dc_category = None, dc_product = None\<rparr>\<rparr>
     [\<lparr>od_product = \<lparr>product_pk = 7, price = 0, category = ProductCategory 3 None\<rparr>,
       final_price = None, count = 2\<rparr>] = Inl TypeError"
  using get_total_price_order_zero_total_raises [of
      "\<lparr>user = \<lparr>order_set = []\<rparr>, is_payment = False,
        discount_code = Some
          \<lparr>code = ''TENOFF'', off_per = Some 10, off_price = None, min_purchase = None,
           is_active = True, is_delete = False, is_first = False, exp_date = None, quantity = None,
           dc_category = None, dc_product = None\<rparr>\<rparr>"
      "\<lparr>code = ''TENOFF'', off_per = Some 10, off_price = None, min_purchase = None,
        is_active = True, is_delete = False, is_first = False, exp_date = None, quantity = None,
        dc_category = None, dc_product = None\<rparr>"
      "Date 2024 5 17" 10 "[]"]
    get_total_price_order_zero_total_raises [of
      "\<lparr>user = \<lparr>order_set = []\<rparr>, is_payment = False,
        discount_code = Some
          \<lparr>code = ''TENOFF'', off_per = Some 10, off_price = None, min_purchase = Some 0,
           is_active = True, is_delete = False, is_first = False, exp_date = None, quantity = None,
           dc_category = None, dc_product = None\<rparr>\<rparr>"
      "\<lparr>code = ''TENOFF'', off_per = Some 10, off_price = None, min_purchase = Some 0,
        is_active = True, is_delete = False, is_first = False, exp_date = None, quantity = None,
        dc_category = None, dc_product = None\<rparr>"
      "Date 2024 5 17" 10
      "[\<lparr>od_product = \<lparr>product_pk = 7, price = 0, category = ProductCategory 3 None\<rparr>,
         final_price = None, count = 2\<rparr>]"]
  by (simp add: is_valid_def get_total_price_detail_def is_discount_applicable_def
      is_category_match_def is_product_match_def is_category_and_product_match_def
      round2_zero dec_mul_def dec_add_def round_to_prec_def round_half_even_def)

end
